theory Spec2Isabelle
  imports Main "HOL-Library.Word"
begin

section \<open>JavaScript strings\<close>

text \<open>
  A JavaScript string is a sequence of 16-bit code units; \<open>length\<close>, \<open>slice\<close>,
  \<open>split\<close>, \<open>trim\<close> and the regular expressions of the bridge (none has the
  \<open>u\<close> flag) all work on code units. \<open>js\<close> embeds an ASCII literal.
\<close>

type_synonym jchar = "16 word"
type_synonym jstring = "jchar list"

definition js :: "string \<Rightarrow> jstring" where
  "js s = map of_char s"

text \<open>
  White space and line terminators of ECMAScript: what \<open>String.prototype.trim\<close>,
  \<open>trimEnd\<close> and the regular-expression class \<open>\s\<close> recognise.
\<close>

definition isWs :: "jchar \<Rightarrow> bool" where
  "isWs c = (c \<in> set [0x09, 0x0A, 0x0B, 0x0C, 0x0D, 0x20, 0xA0, 0x1680,
     0x2000, 0x2001, 0x2002, 0x2003, 0x2004, 0x2005, 0x2006, 0x2007, 0x2008, 0x2009, 0x200A,
     0x2028, 0x2029, 0x202F, 0x205F, 0x3000, 0xFEFF])"

definition trimStart :: "jstring \<Rightarrow> jstring" where
  "trimStart s = dropWhile isWs s"

definition trimEnd :: "jstring \<Rightarrow> jstring" where
  "trimEnd s = rev (dropWhile isWs (rev s))"

definition trim :: "jstring \<Rightarrow> jstring" where
  "trim s = trimEnd (trimStart s)"

text \<open>\<open>s.startsWith(p)\<close> and \<open>s.endsWith(p)\<close>.\<close>

definition startsWith :: "jstring \<Rightarrow> jstring \<Rightarrow> bool" where
  "startsWith s p = (take (length p) s = p)"

definition endsWith :: "jstring \<Rightarrow> jstring \<Rightarrow> bool" where
  "endsWith s p = (length p \<le> length s \<and> drop (length s - length p) s = p)"

text \<open>
  \<open>s.split(d)\<close> for a one-character separator: the pieces between the separators, empty
  pieces included, so that the empty string gives one empty piece.
\<close>

fun split_on :: "jchar \<Rightarrow> jstring \<Rightarrow> jstring list" where
  "split_on d [] = [[]]"
| "split_on d (c # cs) =
     (if c = d then [] # split_on d cs
      else (case split_on d cs of [] \<Rightarrow> [[c]] | r # rs \<Rightarrow> (c # r) # rs))"

text \<open>\<open>xs.join(d)\<close> for a list of strings.\<close>

fun join_with :: "jstring \<Rightarrow> jstring list \<Rightarrow> jstring" where
  "join_with d [] = []"
| "join_with d [x] = x"
| "join_with d (x # y # ys) = x @ d @ join_with d (y # ys)"

definition NL :: jchar where
  "NL = 0x0A"

definition CR :: jchar where
  "CR = 0x0D"

definition split_nl :: "jstring \<Rightarrow> jstring list" where
  "split_nl s = split_on NL s"

definition join_nl :: "jstring list \<Rightarrow> jstring" where
  "join_nl ls = join_with [NL] ls"

section \<open>Dedup ledger: \<open>isDuplicate\<close>\<close>

text \<open>
  The three module-level collections \<open>seen\<close> (a Map from message id to the time it was
  recorded), \<open>processing\<close> (a Set of ids) and \<open>recentMessages\<close> (a Map from the
  content fingerprint to \<open>{ts, id}\<close>) form the ledger. Times are \<open>Date.now()\<close>
  readings in milliseconds; the reading a call takes is its first argument here.
\<close>

record ledger =
  seen :: "jstring \<rightharpoonup> int"
  processing :: "jstring set"
  recentMessages :: "jstring \<rightharpoonup> (int \<times> jstring)"

definition empty_ledger :: ledger where
  "empty_ledger = \<lparr> seen = Map.empty, processing = {}, recentMessages = Map.empty \<rparr>"

definition SEEN_TTL_MS :: int where
  "SEEN_TTL_MS = 10 * 60 * 1000"

definition CONTENT_DEDUP_WINDOW_MS :: int where
  "CONTENT_DEDUP_WINDOW_MS = 5000"

text \<open>The two purge passes at the head of \<open>isDuplicate\<close>.\<close>

definition purge_seen :: "int \<Rightarrow> (jstring \<rightharpoonup> int) \<Rightarrow> (jstring \<rightharpoonup> int)" where
  "purge_seen now m =
     (\<lambda>k. case m k of None \<Rightarrow> None
          | Some t \<Rightarrow> if now - t > SEEN_TTL_MS then None else Some t)"

definition purge_recent ::
  "int \<Rightarrow> (jstring \<rightharpoonup> (int \<times> jstring)) \<Rightarrow> (jstring \<rightharpoonup> (int \<times> jstring))" where
  "purge_recent now m =
     (\<lambda>k. case m k of None \<Rightarrow> None
          | Some v \<Rightarrow> if now - fst v > CONTENT_DEDUP_WINDOW_MS then None else Some v)"

definition purge :: "int \<Rightarrow> ledger \<Rightarrow> ledger" where
  "purge now L = L\<lparr> seen := purge_seen now (seen L),
                     recentMessages := purge_recent now (recentMessages L) \<rparr>"

text \<open>
  \<open>isDuplicate(messageId, content = '')\<close>. An absent (\<open>undefined\<close>) message id is
  \<open>None\<close>; \<open>!messageId\<close> holds for it and for the empty string. The result is the
  returned flag and the ledger after the call. The timer the last branch arms is not run
  here: its callback is \<open>timer_fire\<close> below.
\<close>

definition isDuplicate :: "int \<Rightarrow> jstring option \<Rightarrow> jstring \<Rightarrow> ledger \<Rightarrow> bool \<times> ledger" where
  "isDuplicate now messageId content L =
     (let L1 = purge now L in
      case messageId of
        None \<Rightarrow> (False, L1)
      | Some mid \<Rightarrow>
          if mid = [] then (False, L1)
          else if seen L1 mid \<noteq> None \<or> mid \<in> processing L1 then (True, L1)
          else
            (let contentHash = take 100 content in
             if content \<noteq> [] \<and> recentMessages L1 contentHash \<noteq> None then (True, L1)
             else
               (let L2 = (if content \<noteq> []
                          then L1\<lparr> recentMessages := (recentMessages L1)(contentHash \<mapsto> (now, mid)) \<rparr>
                          else L1)
                in (False, L2\<lparr> seen := (seen L2)(mid \<mapsto> now),
                                processing := insert mid (processing L2) \<rparr>))))"

text \<open>The callback of \<open>setTimeout(() => processing.delete(messageId), 300000)\<close>.\<close>

definition timer_fire :: "jstring \<Rightarrow> ledger \<Rightarrow> ledger" where
  "timer_fire mid L = L\<lparr> processing := processing L - {mid} \<rparr>"

text \<open>
  What happens to the ledger over time: calls of \<open>isDuplicate\<close> and timer callbacks, in
  the order the event loop runs them. \<open>run\<close> returns the flags of the calls in order.
  Letting a timer callback run at any point covers every moment the runtime may pick.
\<close>

datatype event = Admit int "jstring option" jstring | TimerFire jstring

fun run :: "ledger \<Rightarrow> event list \<Rightarrow> bool list \<times> ledger" where
  "run L [] = ([], L)"
| "run L (Admit now mid c # es) =
     (let (r, L1) = isDuplicate now mid c L; (rs, L2) = run L1 es in (r # rs, L2))"
| "run L (TimerFire mid # es) = run (timer_fire mid L) es"



text \<open>
  The older \<open>isDuplicate(messageId)\<close> of \<open>bridge.mjs\<close>: the \<open>seen\<close> map alone.
\<close>

definition isDuplicate_bridge ::
  "int \<Rightarrow> jstring option \<Rightarrow> (jstring \<rightharpoonup> int) \<Rightarrow> bool \<times> (jstring \<rightharpoonup> int)" where
  "isDuplicate_bridge now messageId m =
     (let m1 = purge_seen now m in
      case messageId of
        None \<Rightarrow> (False, m1)
      | Some mid \<Rightarrow>
          if mid = [] then (False, m1)
          else if m1 mid \<noteq> None then (True, m1)
          else (False, m1(mid \<mapsto> now)))"

section \<open>Link extraction: \<open>extractUrls\<close>\<close>

text \<open>The characters the class \<open>[^\s<>()\]\}]\<close> admits inside a URL.\<close>

definition url_char :: "jchar \<Rightarrow> bool" where
  "url_char c = (\<not> isWs c \<and> c \<notin> set (js ''<>()]}''))"

text \<open>
  The regular expression \<open>/https?:\/\/[^\s<>()\]\}]+/\<close> tried at the head of a string:
  the scheme, then the longest non-empty run of admitted characters.
\<close>

definition match_url_at :: "jstring \<Rightarrow> jstring option" where
  "match_url_at s =
     (if startsWith s (js ''https://'') \<and> takeWhile url_char (drop 8 s) \<noteq> []
      then Some (js ''https://'' @ takeWhile url_char (drop 8 s))
      else if startsWith s (js ''http://'') \<and> takeWhile url_char (drop 7 s) \<noteq> []
      then Some (js ''http://'' @ takeWhile url_char (drop 7 s))
      else None)"

lemma match_url_at_nonempty: "match_url_at s = Some m \<Longrightarrow> m \<noteq> []"
  by (auto simp: match_url_at_def js_def split: if_splits)

text \<open>
  The \<open>while ((m = re.exec(src)) !== null)\<close> loop of a global expression: the leftmost
  match, then the search goes on behind it.
\<close>

function find_urls :: "jstring \<Rightarrow> jstring list" where
  "find_urls [] = []"
| "find_urls (c # cs) =
     (case match_url_at (c # cs) of
        Some m \<Rightarrow> m # find_urls (drop (length m) (c # cs))
      | None \<Rightarrow> find_urls cs)"
  by pat_completeness auto
termination
  by (relation "measure length") (auto dest: match_url_at_nonempty)

text \<open>The class \<open>[),.\<dots>!\<dots>?\<dots>;\<dots>]\<close> with its full-width forms (U+3002, U+FF01, U+FF1F, U+FF1B).\<close>

definition trailing_punct :: "jchar \<Rightarrow> bool" where
  "trailing_punct c = (c \<in> set (js '',).!?;'' @ [0x3002, 0xFF01, 0xFF1F, 0xFF1B]))"

text \<open>\<open>u.replace(/[\<dots>]+$/g, '')\<close>: the trailing run of such characters is cut.\<close>

definition strip_trailing_punct :: "jstring \<Rightarrow> jstring" where
  "strip_trailing_punct u = rev (dropWhile trailing_punct (rev u))"

text \<open>The second loop: empty strings and strings already in the Set \<open>seen\<close> are skipped.\<close>

fun dedupe :: "jstring set \<Rightarrow> jstring list \<Rightarrow> jstring list" where
  "dedupe sn [] = []"
| "dedupe sn (u # us) =
     (if u = [] \<or> u \<in> sn then dedupe sn us else u # dedupe (insert u sn) us)"

definition extractUrls :: "jstring \<Rightarrow> jstring list" where
  "extractUrls text = dedupe {} (map strip_trailing_punct (find_urls text))"

section \<open>Group gating: \<open>shouldRespondInGroup\<close>\<close>

text \<open>
  Case folding as a regular expression with the flag \<open>i\<close> and without the flag \<open>u\<close>
  does it for a Basic Latin letter of the pattern: the two cases of the letter match, and no
  character outside Basic Latin matches it. A CJK character matches itself only.
\<close>

definition lower_char :: "jchar \<Rightarrow> jchar" where
  "lower_char c = (if 0x41 \<le> c \<and> c \<le> 0x5A then c + 0x20 else c)"

definition fold_case :: "jstring \<Rightarrow> jstring" where
  "fold_case s = map lower_char s"

text \<open>
  \<open>String.prototype.toLowerCase\<close>, by the lowercase mappings of Unicode 14. Each entry
  \<open>(lo, hi, step, d)\<close> of \<open>lower_table\<close> maps every \<open>step\<close>-th code unit from \<open>lo\<close> to
  \<open>hi\<close> to itself plus \<open>d\<close> (modulo \<open>2^16\<close>); U+212A, the Kelvin sign, becomes the letter
  k. U+0130 becomes two code units, the letter i and U+0307. A letter of a supplementary
  plane is a surrogate pair, whose second half is moved: an entry \<open>(h, lo, hi, d)\<close> of
  \<open>lower_pairs\<close> is for the first half \<open>h\<close> and the second halves from \<open>lo\<close> to \<open>hi\<close>.
  One mapping of the source depends on the context and is not followed here: the capital
  sigma U+03A3 at the end of a word becomes U+03C2 in the source, and U+03C3 here as
  everywhere else.
\<close>

definition lower_table :: "(jchar \<times> jchar \<times> jchar \<times> jchar) list" where
  "lower_table = [
     (0x00C0, 0x00D6, 1, 0x0020), (0x00D8, 0x00DE, 1, 0x0020), (0x0100, 0x012E, 2, 0x0001),
     (0x0132, 0x0136, 2, 0x0001), (0x0139, 0x0147, 2, 0x0001), (0x014A, 0x0176, 2, 0x0001),
     (0x0178, 0x0178, 1, 0xFF87), (0x0179, 0x017D, 2, 0x0001), (0x0181, 0x0181, 1, 0x00D2),
     (0x0182, 0x0184, 2, 0x0001), (0x0186, 0x0186, 1, 0x00CE), (0x0187, 0x0187, 1, 0x0001),
     (0x0189, 0x018A, 1, 0x00CD), (0x018B, 0x018B, 1, 0x0001), (0x018E, 0x018E, 1, 0x004F),
     (0x018F, 0x018F, 1, 0x00CA), (0x0190, 0x0190, 1, 0x00CB), (0x0191, 0x0191, 1, 0x0001),
     (0x0193, 0x0193, 1, 0x00CD), (0x0194, 0x0194, 1, 0x00CF), (0x0196, 0x0196, 1, 0x00D3),
     (0x0197, 0x0197, 1, 0x00D1), (0x0198, 0x0198, 1, 0x0001), (0x019C, 0x019C, 1, 0x00D3),
     (0x019D, 0x019D, 1, 0x00D5), (0x019F, 0x019F, 1, 0x00D6), (0x01A0, 0x01A4, 2, 0x0001),
     (0x01A6, 0x01A6, 1, 0x00DA), (0x01A7, 0x01A7, 1, 0x0001), (0x01A9, 0x01A9, 1, 0x00DA),
     (0x01AC, 0x01AC, 1, 0x0001), (0x01AE, 0x01AE, 1, 0x00DA), (0x01AF, 0x01AF, 1, 0x0001),
     (0x01B1, 0x01B2, 1, 0x00D9), (0x01B3, 0x01B5, 2, 0x0001), (0x01B7, 0x01B7, 1, 0x00DB),
     (0x01B8, 0x01B8, 1, 0x0001), (0x01BC, 0x01BC, 1, 0x0001), (0x01C4, 0x01C4, 1, 0x0002),
     (0x01C5, 0x01C5, 1, 0x0001), (0x01C7, 0x01C7, 1, 0x0002), (0x01C8, 0x01C8, 1, 0x0001),
     (0x01CA, 0x01CA, 1, 0x0002), (0x01CB, 0x01DB, 2, 0x0001), (0x01DE, 0x01EE, 2, 0x0001),
     (0x01F1, 0x01F1, 1, 0x0002), (0x01F2, 0x01F4, 2, 0x0001), (0x01F6, 0x01F6, 1, 0xFF9F),
     (0x01F7, 0x01F7, 1, 0xFFC8), (0x01F8, 0x021E, 2, 0x0001), (0x0220, 0x0220, 1, 0xFF7E),
     (0x0222, 0x0232, 2, 0x0001), (0x023A, 0x023A, 1, 0x2A2B), (0x023B, 0x023B, 1, 0x0001),
     (0x023D, 0x023D, 1, 0xFF5D), (0x023E, 0x023E, 1, 0x2A28), (0x0241, 0x0241, 1, 0x0001),
     (0x0243, 0x0243, 1, 0xFF3D), (0x0244, 0x0244, 1, 0x0045), (0x0245, 0x0245, 1, 0x0047),
     (0x0246, 0x024E, 2, 0x0001), (0x0370, 0x0372, 2, 0x0001), (0x0376, 0x0376, 1, 0x0001),
     (0x037F, 0x037F, 1, 0x0074), (0x0386, 0x0386, 1, 0x0026), (0x0388, 0x038A, 1, 0x0025),
     (0x038C, 0x038C, 1, 0x0040), (0x038E, 0x038F, 1, 0x003F), (0x0391, 0x03A1, 1, 0x0020),
     (0x03A3, 0x03AB, 1, 0x0020), (0x03CF, 0x03CF, 1, 0x0008), (0x03D8, 0x03EE, 2, 0x0001),
     (0x03F4, 0x03F4, 1, 0xFFC4), (0x03F7, 0x03F7, 1, 0x0001), (0x03F9, 0x03F9, 1, 0xFFF9),
     (0x03FA, 0x03FA, 1, 0x0001), (0x03FD, 0x03FF, 1, 0xFF7E), (0x0400, 0x040F, 1, 0x0050),
     (0x0410, 0x042F, 1, 0x0020), (0x0460, 0x0480, 2, 0x0001), (0x048A, 0x04BE, 2, 0x0001),
     (0x04C0, 0x04C0, 1, 0x000F), (0x04C1, 0x04CD, 2, 0x0001), (0x04D0, 0x052E, 2, 0x0001),
     (0x0531, 0x0556, 1, 0x0030), (0x10A0, 0x10C5, 1, 0x1C60), (0x10C7, 0x10C7, 1, 0x1C60),
     (0x10CD, 0x10CD, 1, 0x1C60), (0x13A0, 0x13EF, 1, 0x97D0), (0x13F0, 0x13F5, 1, 0x0008),
     (0x1C90, 0x1CBA, 1, 0xF440), (0x1CBD, 0x1CBF, 1, 0xF440), (0x1E00, 0x1E94, 2, 0x0001),
     (0x1E9E, 0x1E9E, 1, 0xE241), (0x1EA0, 0x1EFE, 2, 0x0001), (0x1F08, 0x1F0F, 1, 0xFFF8),
     (0x1F18, 0x1F1D, 1, 0xFFF8), (0x1F28, 0x1F2F, 1, 0xFFF8), (0x1F38, 0x1F3F, 1, 0xFFF8),
     (0x1F48, 0x1F4D, 1, 0xFFF8), (0x1F59, 0x1F5F, 2, 0xFFF8), (0x1F68, 0x1F6F, 1, 0xFFF8),
     (0x1F88, 0x1F8F, 1, 0xFFF8), (0x1F98, 0x1F9F, 1, 0xFFF8), (0x1FA8, 0x1FAF, 1, 0xFFF8),
     (0x1FB8, 0x1FB9, 1, 0xFFF8), (0x1FBA, 0x1FBB, 1, 0xFFB6), (0x1FBC, 0x1FBC, 1, 0xFFF7),
     (0x1FC8, 0x1FCB, 1, 0xFFAA), (0x1FCC, 0x1FCC, 1, 0xFFF7), (0x1FD8, 0x1FD9, 1, 0xFFF8),
     (0x1FDA, 0x1FDB, 1, 0xFF9C), (0x1FE8, 0x1FE9, 1, 0xFFF8), (0x1FEA, 0x1FEB, 1, 0xFF90),
     (0x1FEC, 0x1FEC, 1, 0xFFF9), (0x1FF8, 0x1FF9, 1, 0xFF80), (0x1FFA, 0x1FFB, 1, 0xFF82),
     (0x1FFC, 0x1FFC, 1, 0xFFF7), (0x2126, 0x2126, 1, 0xE2A3), (0x212A, 0x212A, 1, 0xDF41),
     (0x212B, 0x212B, 1, 0xDFBA), (0x2132, 0x2132, 1, 0x001C), (0x2160, 0x216F, 1, 0x0010),
     (0x2183, 0x2183, 1, 0x0001), (0x24B6, 0x24CF, 1, 0x001A), (0x2C00, 0x2C2F, 1, 0x0030),
     (0x2C60, 0x2C60, 1, 0x0001), (0x2C62, 0x2C62, 1, 0xD609), (0x2C63, 0x2C63, 1, 0xF11A),
     (0x2C64, 0x2C64, 1, 0xD619), (0x2C67, 0x2C6B, 2, 0x0001), (0x2C6D, 0x2C6D, 1, 0xD5E4),
     (0x2C6E, 0x2C6E, 1, 0xD603), (0x2C6F, 0x2C6F, 1, 0xD5E1), (0x2C70, 0x2C70, 1, 0xD5E2),
     (0x2C72, 0x2C72, 1, 0x0001), (0x2C75, 0x2C75, 1, 0x0001), (0x2C7E, 0x2C7F, 1, 0xD5C1),
     (0x2C80, 0x2CE2, 2, 0x0001), (0x2CEB, 0x2CED, 2, 0x0001), (0x2CF2, 0x2CF2, 1, 0x0001),
     (0xA640, 0xA66C, 2, 0x0001), (0xA680, 0xA69A, 2, 0x0001), (0xA722, 0xA72E, 2, 0x0001),
     (0xA732, 0xA76E, 2, 0x0001), (0xA779, 0xA77B, 2, 0x0001), (0xA77D, 0xA77D, 1, 0x75FC),
     (0xA77E, 0xA786, 2, 0x0001), (0xA78B, 0xA78B, 1, 0x0001), (0xA78D, 0xA78D, 1, 0x5AD8),
     (0xA790, 0xA792, 2, 0x0001), (0xA796, 0xA7A8, 2, 0x0001), (0xA7AA, 0xA7AA, 1, 0x5ABC),
     (0xA7AB, 0xA7AB, 1, 0x5AB1), (0xA7AC, 0xA7AC, 1, 0x5AB5), (0xA7AD, 0xA7AD, 1, 0x5ABF),
     (0xA7AE, 0xA7AE, 1, 0x5ABC), (0xA7B0, 0xA7B0, 1, 0x5AEE), (0xA7B1, 0xA7B1, 1, 0x5AD6),
     (0xA7B2, 0xA7B2, 1, 0x5AEB), (0xA7B3, 0xA7B3, 1, 0x03A0), (0xA7B4, 0xA7C2, 2, 0x0001),
     (0xA7C4, 0xA7C4, 1, 0xFFD0), (0xA7C5, 0xA7C5, 1, 0x5ABD), (0xA7C6, 0xA7C6, 1, 0x75C8),
     (0xA7C7, 0xA7C9, 2, 0x0001), (0xA7D0, 0xA7D0, 1, 0x0001), (0xA7D6, 0xA7D8, 2, 0x0001),
     (0xA7F5, 0xA7F5, 1, 0x0001), (0xFF21, 0xFF3A, 1, 0x0020)]"

definition lower_pairs :: "(jchar \<times> jchar \<times> jchar \<times> jchar) list" where
  "lower_pairs = [
     (0xD801, 0xDC00, 56359, 0x0028), (0xD801, 0xDCB0, 56531, 0x0028), (0xD801, 0xDD70, 56698, 0x0027),
     (0xD801, 0xDD7C, 56714, 0x0027), (0xD801, 0xDD8C, 56722, 0x0027), (0xD801, 0xDD94, 56725, 0x0027),
     (0xD803, 0xDC80, 56498, 0x0040), (0xD806, 0xDCA0, 56511, 0x0020), (0xD81B, 0xDE40, 56927, 0x0020),
     (0xD83A, 0xDD00, 56609, 0x0022)]"

fun lower_lookup :: "jchar \<Rightarrow> (jchar \<times> jchar \<times> jchar \<times> jchar) list \<Rightarrow> jchar" where
  "lower_lookup c [] = c"
| "lower_lookup c ((lo, hi, step, d) # rest) =
     (if lo \<le> c \<and> c \<le> hi \<and> (c - lo) mod step = 0 then c + d else lower_lookup c rest)"

fun lower_pair_lookup :: "jchar \<Rightarrow> jchar \<Rightarrow> (jchar \<times> jchar \<times> jchar \<times> jchar) list \<Rightarrow> jchar" where
  "lower_pair_lookup a b [] = b"
| "lower_pair_lookup a b ((h, lo, hi, d) # rest) =
     (if a = h \<and> lo \<le> b \<and> b \<le> hi then b + d else lower_pair_lookup a b rest)"

definition lower_units :: "jchar \<Rightarrow> jstring" where
  "lower_units c =
     (if c < 0x80 then [lower_char c]
      else if c = 0x130 then [0x69, 0x307]
      else [lower_lookup c lower_table])"

definition is_surrogate_pair :: "jchar \<Rightarrow> jchar \<Rightarrow> bool" where
  "is_surrogate_pair a b = (0xD800 \<le> a \<and> a \<le> 0xDBFF \<and> 0xDC00 \<le> b \<and> b \<le> 0xDFFF)"

fun toLowerCase :: "jstring \<Rightarrow> jstring" where
  "toLowerCase (a # b # cs) =
     (if is_surrogate_pair a b then a # lower_pair_lookup a b lower_pairs # toLowerCase cs
      else lower_units a @ toLowerCase (b # cs))"
| "toLowerCase [a] = lower_units a"
| "toLowerCase [] = []"

text \<open>The settings read from the environment that the gate consults.\<close>

record config =
  FEISHU_GROUP_MENTION_ONLY :: bool
  FEISHU_CODE_PREFIXES :: "jstring list"
  FEISHU_SEARCH_PREFIXES :: "jstring list"
  FEISHU_LINK_PREFIXES :: "jstring list"
  FEISHU_BOT_MENTION_NAMES :: "jstring list"
  FEISHU_BOT_OPEN_ID :: jstring
  FEISHU_BOT_USER_ID :: jstring

text \<open>
  The defaults of the source: \<open>coding:,@code,@coding,/code\<close>,
  \<open>search:,@search,\<dots>:,@research\<close>, \<open>link:,\<dots>:,\<dots>:,url:\<close> (the others are
  two CJK characters and a colon), and the bot names
  \<open>clawdt,clawdbot,openclaw\<close> and three CJK names.
\<close>

definition default_config :: config where
  "default_config = \<lparr>
     FEISHU_GROUP_MENTION_ONLY = False,
     FEISHU_CODE_PREFIXES = [js ''coding:'', js ''@code'', js ''@coding'', js ''/code''],
     FEISHU_SEARCH_PREFIXES =
       [js ''search:'', js ''@search'', [0x7814, 0x7A76, 0x3A], js ''@research''],
     FEISHU_LINK_PREFIXES =
       [js ''link:'', [0x94FE, 0x63A5, 0x3A], [0x89E3, 0x6790, 0x3A], js ''url:''],
     FEISHU_BOT_MENTION_NAMES =
       [js ''clawdt'', js ''clawdbot'', js ''openclaw'',
        [0x673A, 0x5668, 0x4EBA], [0x52A9, 0x624B], [0x667A, 0x80FD, 0x4F53]],
     FEISHU_BOT_OPEN_ID = [],
     FEISHU_BOT_USER_ID = [] \<rparr>"

text \<open>
  The loop shared by \<open>detectCodeRoute\<close>, \<open>detectSearchRoute\<close> and
  \<open>detectLinkRoute\<close>: the first non-empty prefix the trimmed text starts with, case
  ignored, and the trimmed rest behind it.
\<close>

fun match_prefix :: "jstring list \<Rightarrow> jstring \<Rightarrow> jstring option" where
  "match_prefix [] trimmed = None"
| "match_prefix (p # ps) trimmed =
     (if p \<noteq> [] \<and> startsWith (toLowerCase trimmed) (toLowerCase p)
      then Some (trim (drop (length p) trimmed))
      else match_prefix ps trimmed)"

definition detectCodeRoute :: "config \<Rightarrow> jstring \<Rightarrow> bool \<times> jstring" where
  "detectCodeRoute cfg text =
     (let trimmed = trim text in
      if trimmed = [] then (False, trimmed)
      else (case match_prefix (FEISHU_CODE_PREFIXES cfg) trimmed of
              Some rest \<Rightarrow> (True, rest) | None \<Rightarrow> (False, trimmed)))"

definition detectSearchRoute :: "config \<Rightarrow> jstring \<Rightarrow> bool \<times> jstring" where
  "detectSearchRoute cfg text =
     (let trimmed = trim text in
      if trimmed = [] then (False, trimmed)
      else (case match_prefix (FEISHU_SEARCH_PREFIXES cfg) trimmed of
              Some rest \<Rightarrow> (True, rest) | None \<Rightarrow> (False, trimmed)))"

definition detectLinkRoute :: "config \<Rightarrow> jstring \<Rightarrow> bool \<times> jstring list" where
  "detectLinkRoute cfg text =
     (let trimmed = trim text in
      if trimmed = [] then (False, [])
      else (case match_prefix (FEISHU_LINK_PREFIXES cfg) trimmed of
              Some rest \<Rightarrow> (True, extractUrls rest) | None \<Rightarrow> (False, extractUrls trimmed)))"

text \<open>\<open>s.includes(n)\<close>.\<close>

definition str_includes :: "jstring \<Rightarrow> jstring \<Rightarrow> bool" where
  "str_includes s n = (\<exists>i \<in> set [0 ..< Suc (length s)]. startsWith (drop i s) n)"

text \<open>
  One entry of the \<open>mentions\<close> array, as the strings \<open>isMentioningBot\<close> collects from it
  into \<open>candidates\<close>: the entry itself when it is a string, its \<open>name\<close>, \<open>text\<close>,
  \<open>key\<close> and \<open>id\<close> when they are strings, and the string values of an \<open>id\<close> object.
  A null entry has none.
\<close>

type_synonym mention = "jstring list"

definition candidate_hits :: "config \<Rightarrow> jstring \<Rightarrow> bool" where
  "candidate_hits cfg raw =
     (let s = dropWhile (\<lambda>c. c = 0x40) (toLowerCase (trim raw)) in
      s \<noteq> [] \<and>
      ((FEISHU_BOT_OPEN_ID cfg \<noteq> [] \<and> s = toLowerCase (FEISHU_BOT_OPEN_ID cfg)) \<or>
       (FEISHU_BOT_USER_ID cfg \<noteq> [] \<and> s = toLowerCase (FEISHU_BOT_USER_ID cfg)) \<or>
       (\<exists>n \<in> set (FEISHU_BOT_MENTION_NAMES cfg). s = n \<or> str_includes s n)))"

definition isMentioningBot :: "config \<Rightarrow> mention list \<Rightarrow> bool" where
  "isMentioningBot cfg mentions = (\<exists>m \<in> set mentions. \<exists>raw \<in> set m. candidate_hits cfg raw)"

text \<open>
  The wake-word test \<open>/^(clawdt|clawdbot|openclaw|bot|\<dots>)[\s,:\<dots>]/i\<close>: one of the
  words (three Latin names, \<open>bot\<close>, three CJK names) at the start, case ignored, and
  behind it white space, a comma or a colon, ASCII or full-width (U+FF0C, U+FF1A).
\<close>

definition wake_words :: "jstring list" where
  "wake_words = [js ''clawdt'', js ''clawdbot'', js ''openclaw'', js ''bot'',
     [0x673A, 0x5668, 0x4EBA], [0x52A9, 0x624B], [0x667A, 0x80FD, 0x4F53]]"

definition wake_sep :: "jchar \<Rightarrow> bool" where
  "wake_sep c = (isWs c \<or> c \<in> set [0x2C, 0x3A, 0xFF0C, 0xFF1A])"

definition wake_word_match :: "jstring \<Rightarrow> bool" where
  "wake_word_match s =
     (\<exists>w \<in> set wake_words.
        startsWith (fold_case s) w \<and>
        (case drop (length w) s of [] \<Rightarrow> False | c # _ \<Rightarrow> wake_sep c))"

definition shouldRespondInGroup :: "config \<Rightarrow> jstring \<Rightarrow> mention list \<Rightarrow> bool" where
  "shouldRespondInGroup cfg text mentions =
     (let trimmed = trim text in
      if trimmed = [] then False
      else if FEISHU_GROUP_MENTION_ONLY cfg then isMentioningBot cfg mentions
      else if isMentioningBot cfg mentions then True
      else if fst (detectCodeRoute cfg trimmed) then True
      else if fst (detectSearchRoute cfg trimmed) then True
      else if fst (detectLinkRoute cfg trimmed) then True
      else if wake_word_match trimmed then True
      else False)"

text \<open>
  The filter of the same name in \<open>bridge.mjs\<close>, a different design with no prefixes: it
  answers when the message has any mention, when the text looks like a question (a
  question mark, ASCII or full-width, one of two final particles, or one of nine question
  words), when it opens with one of eight request words, or when it opens with a form of
  address (case ignored). The words are CJK but for \<open>AI\<close>, \<open>bot\<close> and the C of the
  first form of address.
\<close>

definition question_words :: "jstring list" where
  "question_words = [[0x4EC0, 0x4E48], [0x600E, 0x4E48], [0x5982, 0x4F55],
     [0x4E3A, 0x4EC0, 0x4E48], [0x54EA], [0x591A, 0x5C11], [0x662F, 0x5426],
     [0x80FD, 0x4E0D, 0x80FD], [0x53EF, 0x4EE5, 0x5417]]"

definition request_words :: "jstring list" where
  "request_words = [[0x8BF7], [0x5E2E], [0x9EBB, 0x70E6], [0x80FD, 0x5426], [0x53EF, 0x4EE5],
     [0x60F3, 0x8981], [0x9700, 0x8981], [0x5E0C, 0x671B]]"

definition address_words :: "jstring list" where
  "address_words = [[0x5C0F, 0x63], [0x52A9, 0x624B], js ''ai'', [0x673A, 0x5668, 0x4EBA],
     js ''bot'']"

definition shouldRespondInGroup_bridge :: "jstring \<Rightarrow> mention list \<Rightarrow> bool" where
  "shouldRespondInGroup_bridge text mentions =
     (if mentions \<noteq> [] then True
      else if 0xFF1F \<in> set text \<or> 0x3F \<in> set text \<or> endsWith text [0x5417]
              \<or> endsWith text [0x5462] \<or> list_ex (str_includes text) question_words then True
      else if list_ex (startsWith text) request_words then True
      else if list_ex (startsWith (fold_case text)) address_words then True
      else False)"

section \<open>Gateway client: the message handler of \<open>askClawdbot\<close>\<close>

text \<open>
  The promise \<open>askClawdbot\<close> returns. \<open>resolve\<close> and \<open>reject\<close> settle it only
  while it is pending; a later call changes nothing.
\<close>

datatype promise = Pending | Resolved jstring | Rejected jstring

datatype request = ConnectRequest | AgentRequest

text \<open>
  The closure state of one invocation: \<open>runId\<close> (\<open>null\<close> is \<open>None\<close>) and \<open>buf\<close>,
  the promise, the number of \<open>ws.close()\<close> calls made, the requests sent and the
  buffers handed to \<open>onDelta\<close>.
\<close>

record gateway =
  runId :: "jstring option"
  buf :: jstring
  promise :: promise
  closeCalls :: nat
  sent :: "request list"
  deltas :: "jstring list"

definition gateway_init :: gateway where
  "gateway_init = \<lparr> runId = None, buf = [], promise = Pending, closeCalls = 0,
     sent = [], deltas = [] \<rparr>"

text \<open>
  The payload of an \<open>agent\<close> event, as far as the handler reads it: \<open>runId\<close>,
  \<open>stream\<close>, and of \<open>data\<close> the fields \<open>text\<close> and \<open>delta\<close> (present here when
  they are strings), \<open>phase\<close> and \<open>message\<close>.
\<close>

record agent_payload =
  p_runId :: "jstring option"
  p_stream :: "jstring option"
  d_text :: "jstring option"
  d_delta :: "jstring option"
  d_phase :: "jstring option"
  d_message :: "jstring option"

text \<open>
  A frame the socket delivers: text that is not JSON, the \<open>connect.challenge\<close> event, the
  responses with id \<open>connect\<close> and \<open>agent\<close> (\<open>ok\<close>, \<open>error.message\<close>, and for
  the latter \<open>payload.runId\<close>), an \<open>agent\<close> event with its payload (\<open>None\<close> when it
  has none), or any other JSON object.
\<close>

datatype frame =
    Unparsable
  | Challenge
  | ResConnect bool "jstring option"
  | ResAgent bool "jstring option" "jstring option"
  | EventAgent "agent_payload option"
  | OtherFrame

definition close_socket :: "gateway \<Rightarrow> gateway" where
  "close_socket g = g\<lparr> closeCalls := Suc (closeCalls g) \<rparr>"

definition settle :: "promise \<Rightarrow> gateway \<Rightarrow> gateway" where
  "settle p g = (if promise g = Pending then g\<lparr> promise := p \<rparr> else g)"

text \<open>\<open>m || fallback\<close> for an optional string.\<close>

definition or_default :: "jstring option \<Rightarrow> jstring \<Rightarrow> jstring" where
  "or_default m d = (case m of None \<Rightarrow> d | Some x \<Rightarrow> if x = [] then d else x)"

text \<open>The guard \<open>runId && p.runId !== runId\<close>: the event belongs to another run.\<close>

definition other_run :: "gateway \<Rightarrow> agent_payload \<Rightarrow> bool" where
  "other_run g p = (case runId g of None \<Rightarrow> False | Some r \<Rightarrow> r \<noteq> [] \<and> p_runId p \<noteq> Some r)"

text \<open>
  The \<open>message\<close> handler. The first argument says whether the caller passed \<open>onDelta\<close>;
  an exception of the callback is swallowed, so the callback leaves no other trace.
\<close>

definition on_message :: "bool \<Rightarrow> gateway \<Rightarrow> frame \<Rightarrow> gateway" where
  "on_message hasOnDelta g f =
     (case f of
        Unparsable \<Rightarrow> g
      | Challenge \<Rightarrow> g\<lparr> sent := sent g @ [ConnectRequest] \<rparr>
      | ResConnect ok err \<Rightarrow>
          if \<not> ok then settle (Rejected (or_default err (js ''connect failed''))) (close_socket g)
          else g\<lparr> sent := sent g @ [AgentRequest] \<rparr>
      | ResAgent ok err rid \<Rightarrow>
          if \<not> ok then settle (Rejected (or_default err (js ''agent error''))) (close_socket g)
          else if or_default rid [] \<noteq> [] then g\<lparr> runId := rid \<rparr> else g
      | EventAgent None \<Rightarrow> g
      | EventAgent (Some p) \<Rightarrow>
          if other_run g p then g
          else if p_stream p = Some (js ''assistant'') then
            (let b = (case d_text p of Some t \<Rightarrow> t
                      | None \<Rightarrow> (case d_delta p of Some d \<Rightarrow> buf g @ d | None \<Rightarrow> buf g))
             in g\<lparr> buf := b, deltas := (if hasOnDelta then deltas g @ [b] else deltas g) \<rparr>)
          else if p_stream p = Some (js ''lifecycle'') then
            (let g1 = (if d_phase p = Some (js ''end'')
                       then settle (Resolved (trim (buf g))) (close_socket g) else g)
             in if d_phase p = Some (js ''error'')
                then settle (Rejected (or_default (d_message p) (js ''agent error''))) (close_socket g1)
                else g1)
          else g
      | OtherFrame \<Rightarrow> g)"

text \<open>The \<open>error\<close> handler of the socket: \<open>close(); reject(e)\<close>.\<close>

definition on_error :: "jstring \<Rightarrow> gateway \<Rightarrow> gateway" where
  "on_error e g = settle (Rejected e) (close_socket g)"

definition lifecycle_frame :: "jstring option \<Rightarrow> jstring \<Rightarrow> jstring option \<Rightarrow> frame" where
  "lifecycle_frame rid ph msg = EventAgent (Some \<lparr> p_runId = rid, p_stream = Some (js ''lifecycle''),
     d_text = None, d_delta = None, d_phase = Some ph, d_message = msg \<rparr>)"

definition assistant_frame :: "jstring option \<Rightarrow> jstring option \<Rightarrow> jstring option \<Rightarrow> frame" where
  "assistant_frame rid txt dl = EventAgent (Some \<lparr> p_runId = rid, p_stream = Some (js ''assistant''),
     d_text = txt, d_delta = dl, d_phase = None, d_message = None \<rparr>)"

text \<open>
  The exchange of a successful run: the challenge, the two acknowledgements (the second
  with run id \<open>r1\<close>), two assistant deltas, and the end of the lifecycle.
\<close>

definition happy_frames :: "frame list" where
  "happy_frames = [Challenge, ResConnect True None, ResAgent True None (Some (js ''r1'')),
     assistant_frame (Some (js ''r1'')) None (Some (js ''Hello '')),
     assistant_frame (Some (js ''r1'')) None (Some (js ''world '')),
     lifecycle_frame (Some (js ''r1'')) (js ''end'') None]"

section \<open>Card title: \<open>extractHeaderAndBody\<close>\<close>

text \<open>
  The regular expressions of \<open>extractHeaderAndBody\<close> are written in the source with
  doubled backslashes: in \<open>/^[-*]\\s+/\<close> the pair \<open>\\\<close> stands for one backslash
  character and \<open>s+\<close> for a run of the letter s. They are modelled as written.
  \<open>BSL\<close> is the backslash; the dot of a regular expression matches any code unit but
  a line terminator.
\<close>

definition BSL :: jchar where
  "BSL = 0x5C"

definition isLineTerminator :: "jchar \<Rightarrow> bool" where
  "isLineTerminator c = (c \<in> set [0x0A, 0x0D, 0x2028, 0x2029])"

definition no_line_terminator :: "jstring \<Rightarrow> bool" where
  "no_line_terminator s = list_all (\<lambda>c. \<not> isLineTerminator c) s"

text \<open>\<open>/^[-*]\\s+/.test(s)\<close>: a dash or star, a backslash, the letter s.\<close>

definition re_bullet_item :: "jstring \<Rightarrow> bool" where
  "re_bullet_item s =
     (case s of c # b # x # _ \<Rightarrow> (c = 0x2D \<or> c = 0x2A) \<and> b = BSL \<and> x = 0x73 | _ \<Rightarrow> False)"

text \<open>
  \<open>/^\\d+\\.\\s+/.test(s)\<close>: a backslash, a run of the letter d, a backslash, any
  character, a backslash, the letter s.
\<close>

definition re_numbered_item :: "jstring \<Rightarrow> bool" where
  "re_numbered_item s =
     (case s of
        [] \<Rightarrow> False
      | b # r \<Rightarrow>
          b = BSL \<and> takeWhile (\<lambda>c. c = 0x64) r \<noteq> [] \<and>
          (case dropWhile (\<lambda>c. c = 0x64) r of
             b2 # x # b3 # y # _ \<Rightarrow> b2 = BSL \<and> \<not> isLineTerminator x \<and> b3 = BSL \<and> y = 0x73
           | _ \<Rightarrow> False))"

text \<open>
  \<open>s.match(/^#{1,6}\\s+(.+)$/)\<close>, giving the group: one to six hashes, a backslash, a
  run of the letter s, and the rest of the string, which is non-empty and has no line
  terminator. When nothing stands behind the run of s, the group is its last letter.
\<close>

definition re_heading :: "jstring \<Rightarrow> jstring option" where
  "re_heading s =
     (let k = length (takeWhile (\<lambda>c. c = 0x23) s) in
      if k < 1 \<or> 6 < k then None
      else (case drop k s of
              [] \<Rightarrow> None
            | b # r \<Rightarrow>
                if b \<noteq> BSL then None
                else (let n = length (takeWhile (\<lambda>c. c = 0x73) r); rest = drop n r in
                      if n = 0 then None
                      else if rest \<noteq> [] then (if no_line_terminator rest then Some rest else None)
                      else if 2 \<le> n then Some [0x73] else None)))"

text \<open>
  \<open>s.match(/^\\*\\*(.+)\\*\\*$/)\<close>, giving the group. Each \<open>\\*\<close> is a possibly
  empty run of backslashes, so the expression matches every non-empty string without a line
  terminator; the group is the string behind its leading backslashes, or one backslash
  when the string has nothing else.
\<close>

definition re_bold_star :: "jstring \<Rightarrow> jstring option" where
  "re_bold_star s =
     (if s = [] \<or> \<not> no_line_terminator s then None
      else (let r = dropWhile (\<lambda>c. c = BSL) s in Some (if r \<noteq> [] then r else [BSL])))"

text \<open>\<open>s.match(/^__(.+)__$/)\<close>, giving the group.\<close>

definition re_bold_underscore :: "jstring \<Rightarrow> jstring option" where
  "re_bold_underscore s =
     (if 5 \<le> length s \<and> take 2 s = js ''__'' \<and> drop (length s - 2) s = js ''__''
         \<and> no_line_terminator s
      then Some (take (length s - 4) (drop 2 s)) else None)"

definition FENCE :: jstring where
  "FENCE = js ''```''"

text \<open>The index of the first line that is not blank, if there is one.\<close>

fun first_nonblank :: "jstring list \<Rightarrow> nat option" where
  "first_nonblank [] = None"
| "first_nonblank (l # ls) =
     (if trim l \<noteq> [] then Some 0 else map_option Suc (first_nonblank ls))"

text \<open>\<open>extractHeaderAndBody(text)\<close>, as the pair of \<open>title\<close> and \<open>body\<close>.\<close>

definition extractHeaderAndBody :: "jstring \<Rightarrow> jstring \<times> jstring" where
  "extractHeaderAndBody text =
     (if text = [] then ([], [])
      else
        (let lines = split_nl text in
         case first_nonblank lines of
           None \<Rightarrow> ([], text)
         | Some idx \<Rightarrow>
             (let first = trim (lines ! idx) in
              if first = [] then ([], text)
              else if startsWith first FENCE then ([], text)
              else if re_bullet_item first \<or> re_numbered_item first then ([], text)
              else if startsWith first (js ''|'') then ([], text)
              else
                (let title =
                   (case re_heading first of
                      Some h \<Rightarrow> trim h
                    | None \<Rightarrow>
                        (case (case re_bold_star first of
                                 Some b \<Rightarrow> Some b | None \<Rightarrow> re_bold_underscore first) of
                           Some b \<Rightarrow> trim b
                         | None \<Rightarrow> if length first \<le> 80 then first else []))
                 in if title = [] then ([], text)
                    else (title,
                          join_nl (dropWhile (\<lambda>l. trim l = [])
                                     (take idx lines @ drop (Suc idx) lines)))))))"

section \<open>Tables in cards: \<open>convertTablesToList\<close> and \<open>buildCardElements\<close>\<close>

definition PIPE :: jchar where "PIPE = 0x7C"

text \<open>\<open>trimmed.startsWith('|') && trimmed.endsWith('|')\<close>.\<close>

definition pipe_wrapped :: "jstring \<Rightarrow> bool" where
  "pipe_wrapped t = (startsWith t [PIPE] \<and> endsWith t [PIPE])"

text \<open>\<open>isTableRow(line)\<close>; an absent line counts as the empty string.\<close>

definition isTableRow :: "jstring \<Rightarrow> bool" where
  "isTableRow line =
     (let trimmed = trim line in
      pipe_wrapped trimmed \<and>
      2 \<le> length (filter (\<lambda>c. trim c \<noteq> []) (split_on PIPE trimmed)))"

text \<open>\<open>/^:?-{3,}:?$/.test(c)\<close>.\<close>

definition re_separator_cell :: "jstring \<Rightarrow> bool" where
  "re_separator_cell c =
     (let c1 = (if startsWith c (js '':'') then tl c else c);
          r = dropWhile (\<lambda>x. x = 0x2D) c1
      in 3 \<le> length (takeWhile (\<lambda>x. x = 0x2D) c1) \<and> (r = [] \<or> r = js '':''))"

definition isTableSeparator :: "jstring \<Rightarrow> bool" where
  "isTableSeparator line =
     (let trimmed = trim line;
          cells = map trim (filter (\<lambda>c. trim c \<noteq> []) (split_on PIPE trimmed))
      in pipe_wrapped trimmed \<and> 2 \<le> length cells \<and> list_all re_separator_cell cells)"

text \<open>\<open>splitTableRow(line)\<close>: the cells between the outer bars, \<open>trimmed.slice(1, -1)\<close> split at the bars.\<close>

definition splitTableRow :: "jstring \<Rightarrow> jstring list" where
  "splitTableRow line =
     (let trimmed = trim line in
      if \<not> pipe_wrapped trimmed then []
      else map trim (split_on PIPE (butlast (tl trimmed))))"

text \<open>\<open>/^[-:]+$/.test(c)\<close>.\<close>

definition re_dashes_colons :: "jstring \<Rightarrow> bool" where
  "re_dashes_colons c = (c \<noteq> [] \<and> list_all (\<lambda>x. x = 0x2D \<or> x = 0x3A) c)"

text \<open>The bullet U+2022 and a space.\<close>

definition BULLET :: jstring where "BULLET = [0x2022, 0x20]"

text \<open>
  The \<open>forEach\<close> over the cells of a data row: \<open>key: cell\<close> where the header has a
  key at that index, the bare cell where it has none; an empty cell gives nothing.
\<close>

fun row_parts :: "jstring list \<Rightarrow> jstring list \<Rightarrow> jstring list" where
  "row_parts hs [] = []"
| "row_parts hs (cell # cells) =
     (let part = (case hs of
                    [] \<Rightarrow> (if cell \<noteq> [] then [cell] else [])
                  | key # _ \<Rightarrow>
                      if key \<noteq> [] \<and> cell \<noteq> [] then [key @ js '': '' @ cell]
                      else if cell \<noteq> [] then [cell] else [])
      in part @ row_parts (tl hs) cells)"

text \<open>
  The loop of \<open>convertTablesToList\<close> over the lines, with \<open>headers\<close> (\<open>null\<close> is
  \<open>None\<close>); it returns the lines pushed to \<open>out\<close>.
\<close>

fun ctl_loop :: "jstring list option \<Rightarrow> jstring list \<Rightarrow> jstring list" where
  "ctl_loop headers [] = []"
| "ctl_loop headers (line # rest) =
     (let trimmed = trim line in
      if pipe_wrapped trimmed then
        (let cells = map trim (filter (\<lambda>c. trim c \<noteq> []) (split_on PIPE trimmed)) in
         if list_all re_dashes_colons cells then ctl_loop headers rest
         else (case headers of
                 None \<Rightarrow> ctl_loop (Some cells) rest
               | Some hs \<Rightarrow>
                   (let parts = row_parts hs cells in
                    (if parts \<noteq> [] then [BULLET @ join_with (js '' | '') parts] else [])
                    @ ctl_loop headers rest)))
      else line # ctl_loop None rest)"

definition convertTablesToList :: "jstring \<Rightarrow> jstring" where
  "convertTablesToList text = (if text = [] then [] else join_nl (ctl_loop None (split_nl text)))"

text \<open>
  A card element: a Markdown block, or the table \<open>buildTableElement(headers, rows)\<close>
  builds, kept as its two arguments (both are non-empty where it is called, so it never
  returns \<open>null\<close> there).
\<close>

datatype element = Markdown jstring | Table "jstring list" "jstring list list"

text \<open>The variables of the loop of \<open>buildCardElements\<close>.\<close>

record card_builder =
  elements :: "element list"
  buffer :: "jstring list"
  tableCount :: nat
  inCodeFence :: bool

definition flush :: "card_builder \<Rightarrow> card_builder" where
  "flush st =
     (let content = trim (join_nl (buffer st)) in
      st\<lparr> elements := (if content \<noteq> [] then elements st @ [Markdown content] else elements st),
          buffer := [] \<rparr>)"

text \<open>\<open>lines[i]\<close> where an index out of range gives \<open>undefined\<close>, read as the empty string.\<close>

definition line_at :: "jstring list \<Rightarrow> nat \<Rightarrow> jstring" where
  "line_at lines i = (if i < length lines then lines ! i else [])"

text \<open>The template \<open>`| ${r.join(' | ')} |`\<close>.\<close>

definition render_row :: "jstring list \<Rightarrow> jstring" where
  "render_row r = js ''| '' @ join_with (js '' | '') r @ js '' |''"

text \<open>
  The \<open>for\<close> loop of \<open>buildCardElements\<close> from index \<open>i\<close>. In the table branch the
  source sets \<open>i = j - 1\<close> before it builds \<open>tableBlock\<close>, so that the \<open>lines[i + 1]\<close>
  in \<open>tableBlock\<close> is \<open>lines[j]\<close>, the line behind the table; the loop goes on at
  \<open>j\<close>. The cap on tables is the literal 5.
\<close>

function card_loop :: "jstring list \<Rightarrow> nat \<Rightarrow> card_builder \<Rightarrow> card_builder" where
  "card_loop lines i st =
     (if length lines \<le> i then st
      else
        (let line = lines ! i in
         if startsWith (trim line) FENCE then
           card_loop lines (Suc i) (st\<lparr> inCodeFence := \<not> inCodeFence st, buffer := buffer st @ [line] \<rparr>)
         else if inCodeFence st then
           card_loop lines (Suc i) (st\<lparr> buffer := buffer st @ [line] \<rparr>)
         else if isTableRow line \<and> isTableSeparator (line_at lines (Suc i)) then
           (let headers = splitTableRow line;
                rows = map splitTableRow (takeWhile isTableRow (drop (i + 2) lines));
                j = i + 2 + length rows
            in if headers \<noteq> [] \<and> rows \<noteq> [] then
                 (if tableCount st < 5 then
                    card_loop lines j
                      ((flush st)\<lparr> elements := elements (flush st) @ [Table headers rows],
                                  tableCount := Suc (tableCount st) \<rparr>)
                  else
                    card_loop lines j
                      (st\<lparr> buffer := buffer st @
                           [convertTablesToList
                              (join_nl ([line, line_at lines j] @ map render_row rows))] \<rparr>))
               else card_loop lines j (st\<lparr> buffer := buffer st @ [line] \<rparr>))
         else card_loop lines (Suc i) (st\<lparr> buffer := buffer st @ [line] \<rparr>)))"
  by pat_completeness auto
termination
  by (relation "measure (\<lambda>(lines, i, st). length lines - i)") auto

text \<open>\<open>buildCardElements(text)\<close>; the first argument is \<open>FEISHU_TABLE_ENABLED\<close>.\<close>

definition buildCardElements :: "bool \<Rightarrow> jstring \<Rightarrow> element list" where
  "buildCardElements tableEnabled text =
     (if text = [] then []
      else if \<not> tableEnabled then [Markdown (or_default (Some (convertTablesToList text)) (js '' ''))]
      else
        (let st = flush (card_loop (split_nl text) 0
                    \<lparr> elements = [], buffer = [], tableCount = 0, inCodeFence = False \<rparr>)
         in if elements st = [] then [Markdown (or_default (Some (convertTablesToList text)) (js '' ''))]
            else elements st))"

text \<open>
  \<open>buildMarkdownCard(text)\<close>, as far as the text decides the card: the header title, set
  only when \<open>title\<close> is not empty, and the elements of the body.
\<close>

record card =
  header :: "jstring option"
  body_elements :: "element list"

definition buildMarkdownCard :: "bool \<Rightarrow> jstring \<Rightarrow> card" where
  "buildMarkdownCard tableEnabled text =
     (let title = fst (extractHeaderAndBody text);
          processed = snd (extractHeaderAndBody text);
          els = buildCardElements tableEnabled processed
      in \<lparr> header = (if title \<noteq> [] then Some title else None),
           body_elements = (if els \<noteq> [] then els
                            else [Markdown (or_default (Some processed) (js '' ''))]) \<rparr>)"

section \<open>Chunking: \<open>splitMarkdownIntoChunks\<close>\<close>

text \<open>\<open>text.replace(/\r\n/g, '\n')\<close>.\<close>

fun replace_crlf :: "jstring \<Rightarrow> jstring" where
  "replace_crlf (a # b # cs) =
     (if a = CR \<and> b = NL then NL # replace_crlf cs else a # replace_crlf (b # cs))"
| "replace_crlf cs = cs"

text \<open>
  The variables of the loop: \<open>chunks\<close>, \<open>buf\<close> (here \<open>chunk_buf\<close>), \<open>bufLen\<close>,
  \<open>inFence\<close> and \<open>fenceLine\<close>. Two more fields record what the source does not keep:
  \<open>reopened\<close> says that the first line of the current buffer is a fence line the splitter
  put there, and \<open>flushed\<close> lists every buffer \<open>pushChunk\<close> was called on, with two marks:
  its first line is such a reopening fence, its last line is the closing fence the splitter
  appended. Neither field is read by the fields of the source.
\<close>

record chunker =
  chunks :: "jstring list"
  chunk_buf :: "jstring list"
  bufLen :: nat
  inFence :: bool
  fenceLine :: jstring
  reopened :: bool
  flushed :: "(bool \<times> bool \<times> jstring list) list"

definition chunker_init :: chunker where
  "chunker_init = \<lparr> chunks = [], chunk_buf = [], bufLen = 0, inFence = False,
     fenceLine = FENCE, reopened = False, flushed = [] \<rparr>"

text \<open>
  \<open>pushChunk()\<close>: the buffer joined by newlines and trimmed at the end is pushed unless
  it is empty. The argument says whether the caller has just appended the closing fence.
\<close>

definition pushChunk :: "bool \<Rightarrow> chunker \<Rightarrow> chunker" where
  "pushChunk closing st =
     (let out = trimEnd (join_nl (chunk_buf st)) in
      st\<lparr> chunks := (if out \<noteq> [] then chunks st @ [out] else chunks st),
          chunk_buf := [], bufLen := 0,
          flushed := flushed st @ [(reopened st, closing, chunk_buf st)],
          reopened := False \<rparr>)"

text \<open>The test \<open>next === undefined || next.trim() === ''\<close> on the lines that follow.\<close>

definition at_paragraph_end :: "jstring list \<Rightarrow> bool" where
  "at_paragraph_end rest = (case rest of [] \<Rightarrow> True | n # _ \<Rightarrow> trim n = [])"

text \<open>
  One round of the \<open>for\<close> loop, for \<open>line\<close> with the lines behind it. \<open>maxChars\<close> is a
  character count; \<open>Math.floor(maxChars * 0.75)\<close> is \<open>3 * maxChars div 4\<close>.
\<close>

definition chunk_step :: "nat \<Rightarrow> chunker \<Rightarrow> jstring \<Rightarrow> jstring list \<Rightarrow> chunker" where
  "chunk_step maxChars st line rest =
     (let trimmed = trim line;
          st1 = (if startsWith trimmed FENCE
                 then (if \<not> inFence st then st\<lparr> inFence := True, fenceLine := trimmed \<rparr>
                       else st\<lparr> inFence := False \<rparr>)
                 else st);
          extra = length line + 1;
          wouldExceed = (bufLen st1 + extra > maxChars);
          st2 = (if wouldExceed \<and> chunk_buf st1 \<noteq> []
                 then (if inFence st1
                       then (pushChunk True (st1\<lparr> chunk_buf := chunk_buf st1 @ [FENCE] \<rparr>))
                              \<lparr> chunk_buf := [fenceLine st1],
                                bufLen := length (fenceLine st1) + 1,
                                reopened := True \<rparr>
                       else pushChunk False st1)
                 else st1);
          st3 = st2\<lparr> chunk_buf := chunk_buf st2 @ [line], bufLen := bufLen st2 + extra \<rparr>
      in if \<not> inFence st3 \<and> bufLen st3 \<ge> 3 * maxChars div 4 \<and> at_paragraph_end rest
         then pushChunk False st3 else st3)"

fun chunk_loop :: "nat \<Rightarrow> chunker \<Rightarrow> jstring list \<Rightarrow> chunker" where
  "chunk_loop maxChars st [] = st"
| "chunk_loop maxChars st (line # rest) = chunk_loop maxChars (chunk_step maxChars st line rest) rest"

text \<open>The loop over all lines and the final \<open>if (buf.length) pushChunk()\<close>.\<close>

definition chunk_run :: "nat \<Rightarrow> jstring \<Rightarrow> chunker" where
  "chunk_run maxChars src =
     (let st = chunk_loop maxChars chunker_init (split_nl src) in
      if chunk_buf st \<noteq> [] then pushChunk False st else st)"

definition splitMarkdownIntoChunks :: "jstring \<Rightarrow> nat \<Rightarrow> jstring list" where
  "splitMarkdownIntoChunks text maxChars =
     (let src = replace_crlf text in
      if src = [] then []
      else if length src \<le> maxChars then [src]
      else (let cs = chunks (chunk_run maxChars src) in
            if cs = [] then [take maxChars src] else cs))"

text \<open>
  The buffers behind the chunks of a text that is split, and the lines of a buffer that
  come from the text: all but a reopening fence at its head and a closing fence at its end.
\<close>

definition chunk_buffers :: "jstring \<Rightarrow> nat \<Rightarrow> (bool \<times> bool \<times> jstring list) list" where
  "chunk_buffers text maxChars = flushed (chunk_run maxChars (replace_crlf text))"

fun original_lines :: "bool \<times> bool \<times> jstring list \<Rightarrow> jstring list" where
  "original_lines (opened, closing, ls) =
     (let ls1 = (if closing then butlast ls else ls) in if opened then tl ls1 else ls1)"

fun render_buffer :: "bool \<times> bool \<times> jstring list \<Rightarrow> jstring" where
  "render_buffer (opened, closing, ls) = trimEnd (join_nl ls)"

text \<open>
  The round trip on the chunks themselves: each chunk is cut into its lines and the fence
  lines the splitter added are removed. \<open>rejoin_chunks\<close> joins all lines that remain by
  newlines; \<open>concat_chunks\<close> puts the chunks that remain end to end.
\<close>

fun chunk_original_lines :: "bool \<times> bool \<times> jstring list \<Rightarrow> jstring list" where
  "chunk_original_lines (opened, closing, ls) =
     original_lines (opened, closing, split_nl (trimEnd (join_nl ls)))"

definition concat_chunks :: "jstring \<Rightarrow> nat \<Rightarrow> jstring" where
  "concat_chunks text maxChars =
     concat (map (\<lambda>b. join_nl (chunk_original_lines b))
       (filter (\<lambda>b. render_buffer b \<noteq> []) (chunk_buffers text maxChars)))"

definition rejoin_chunks :: "jstring \<Rightarrow> nat \<Rightarrow> jstring" where
  "rejoin_chunks text maxChars =
     join_nl (concat (map chunk_original_lines
       (filter (\<lambda>b. render_buffer b \<noteq> []) (chunk_buffers text maxChars))))"

text \<open>
  What the proofs below keep track of. \<open>carried\<close>: the lines of the text taken in so
  far, read off the flushed buffers and the current one. \<open>reopen_ok\<close>: a buffer marked as
  reopened holds its fence line. \<open>rendered\<close>: the chunks are the flushed buffers joined
  and trimmed, the empty results left out. \<open>solid\<close>: a line that is not empty, does not
  end in white space and holds no newline; \<open>all_solid\<close>: every line in the buffers is
  such a line and no flushed buffer is empty.
\<close>

definition carried :: "chunker \<Rightarrow> jstring list" where
  "carried st = concat (map original_lines (flushed st))
                 @ (if reopened st then tl (chunk_buf st) else chunk_buf st)"

definition reopen_ok :: "chunker \<Rightarrow> bool" where
  "reopen_ok st = (reopened st \<longrightarrow> chunk_buf st \<noteq> [])"

definition rendered :: "chunker \<Rightarrow> bool" where
  "rendered st = (chunks st = filter (\<lambda>c. c \<noteq> []) (map render_buffer (flushed st)))"

definition solid :: "jstring \<Rightarrow> bool" where
  "solid l = (l \<noteq> [] \<and> \<not> isWs (last l) \<and> NL \<notin> set l)"

definition all_solid :: "chunker \<Rightarrow> bool" where
  "all_solid st = (list_all solid (chunk_buf st) \<and> solid (fenceLine st) \<and>
     list_all (\<lambda>b. snd (snd b) \<noteq> [] \<and> list_all solid (snd (snd b))) (flushed st))"

text \<open>
  For a text without fences. \<open>within_bound\<close>: a chunk is no longer than \<open>maxChars\<close>,
  or it is one line of the text, trimmed at its end. \<open>fence_free\<close>: no fence is open,
  \<open>bufLen\<close> is the length of the buffer joined by newlines plus one, the buffer fits or
  is a single line, and the chunks so far are within the bound.
\<close>

definition within_bound :: "nat \<Rightarrow> jstring list \<Rightarrow> jstring \<Rightarrow> bool" where
  "within_bound m ls c = (length c \<le> m \<or> list_ex (\<lambda>l. c = trimEnd l) ls)"

definition fence_free :: "nat \<Rightarrow> jstring list \<Rightarrow> chunker \<Rightarrow> bool" where
  "fence_free m ls st =
     (\<not> inFence st \<and>
      bufLen st = sum_list (map (\<lambda>l. Suc (length l)) (chunk_buf st)) \<and>
      (bufLen st \<le> m \<or> list_ex (\<lambda>l. chunk_buf st = [l]) ls) \<and>
      list_all (within_bound m ls) (chunks st))"

section \<open>Properties of the dedup ledger\<close>

lemma purge_seen_keeps:
  "m k = Some t \<Longrightarrow> now - t \<le> SEEN_TTL_MS \<Longrightarrow> purge_seen now m k = Some t"
  by (simp add: purge_seen_def)


lemma purge_seen_le: "purge_seen now m \<subseteq>\<^sub>m m"
  by (auto simp: map_le_def purge_seen_def dom_def split: option.splits if_splits)

lemma purge_recent_le: "purge_recent now m \<subseteq>\<^sub>m m"
  by (auto simp: map_le_def purge_recent_def dom_def split: option.splits if_splits)

















lemma run_falsy_ids:
  assumes "mid = None \<or> mid = Some []"
  shows "fst (run L (map (\<lambda>(t, c). Admit t mid c) calls)) = replicate (length calls) False"
proof (induction calls arbitrary: L)
  case Nil
  then show ?case by simp
next
  case (Cons x calls)
  obtain t c where x: "x = (t, c)" by (cases x)
  have "isDuplicate t mid c L = (False, purge t L)"
    using assms by (auto simp: isDuplicate_def)
  with Cons.IH [of "purge t L"] x show ?case by (simp add: split_beta)
qed

text \<open>
  C10. A call with an absent or empty message id returns false whatever the content and
  whatever the ledger holds from earlier calls, and it leaves the ledger purged and
  otherwise untouched: every entry of \<open>seen\<close> and of \<open>recentMessages\<close> afterwards was
  there before, and \<open>processing\<close> is unchanged. So any sequence of such calls returns
  false throughout.
\<close>

theorem falsy_id_never_deduplicated:
  assumes "mid = None \<or> mid = Some []"
  shows "isDuplicate now mid c L = (False, purge now L) \<and>
         seen (purge now L) \<subseteq>\<^sub>m seen L \<and>
         processing (purge now L) = processing L \<and>
         recentMessages (purge now L) \<subseteq>\<^sub>m recentMessages L \<and>
         fst (run L (map (\<lambda>(t, c). Admit t mid c) calls)) = replicate (length calls) False"
proof -
  have "isDuplicate now mid c L = (False, purge now L)"
    using assms by (auto simp: isDuplicate_def)
  moreover have "seen (purge now L) \<subseteq>\<^sub>m seen L"
    by (simp add: purge_def purge_seen_le)
  moreover have "processing (purge now L) = processing L"
    by (simp add: purge_def)
  moreover have "recentMessages (purge now L) \<subseteq>\<^sub>m recentMessages L"
    by (simp add: purge_def purge_recent_le)
  moreover note run_falsy_ids [OF assms]
  ultimately show ?thesis by simp
qed

theorem falsy_id_never_deduplicated_witness:
  "fst (run (snd (isDuplicate 1000 (Some (js ''om_1'')) (js ''hi'') empty_ledger))
     [Admit 2000 (Some []) (js ''hi''), Admit 3000 (Some []) (js ''hi'')]) = [False, False] \<and>
   fst (isDuplicate 2000 None (js ''hi'')
     (snd (isDuplicate 1000 (Some (js ''om_1'')) (js ''hi'') empty_ledger))) = False"
proof -
  let ?L = "snd (isDuplicate 1000 (Some (js ''om_1'')) (js ''hi'') empty_ledger)"
  have e: "Some [] = None \<or> Some [] = Some ([]::jstring)" by simp
  have n: "None = None \<or> None = Some ([]::jstring)" by simp
  from falsy_id_never_deduplicated [OF e, of 0 "[]" ?L "[(2000, js ''hi''), (3000, js ''hi'')]"]
    falsy_id_never_deduplicated [OF n, of 2000 "js ''hi''" ?L "[]"]
  show ?thesis by simp
qed

lemma isDuplicate_bridge_falsy:
  "mid = None \<or> mid = Some [] \<Longrightarrow> isDuplicate_bridge now mid m = (False, purge_seen now m)"
  by (auto simp: isDuplicate_bridge_def)

lemma isDuplicate_bridge_repeat:
  assumes "mid \<noteq> []" and "isDuplicate_bridge t0 (Some mid) m = (False, m1)"
    and "t - t0 \<le> SEEN_TTL_MS"
  shows "isDuplicate_bridge t (Some mid) m1 = (True, purge_seen t m1) \<and>
         purge_seen t m1 mid = Some t0"
proof -
  have "m1 mid = Some t0"
    using assms(1,2) by (auto simp: isDuplicate_bridge_def Let_def split: if_splits)
  then have "purge_seen t m1 mid = Some t0"
    using assms(3) by (rule purge_seen_keeps)
  then show ?thesis
    using assms(1) by (simp add: isDuplicate_bridge_def)
qed

section \<open>Properties of link extraction and group gating\<close>

text \<open>
  C6. Link extraction on the example sentence: the URL that occurs twice is listed once,
  the full stop behind the last URL is cut, and the order of first occurrence is kept.
\<close>

theorem extractUrls_example:
  "extractUrls (js ''see https://a.com/1 and https://a.com/1 again, also https://b.com/x.'')
     = [js ''https://a.com/1'', js ''https://b.com/x'']"
  by code_simp

text \<open>
  C5. Group gating. In a group chat the text \<open>today's weather?\<close> with an empty mentions
  list is refused, in mention-only mode or not and whatever names and ids the bot is
  configured with: the question mark does not admit it.
\<close>

theorem group_gating_question_refused:
  "shouldRespondInGroup
     (default_config\<lparr> FEISHU_GROUP_MENTION_ONLY := mo, FEISHU_BOT_MENTION_NAMES := names,
        FEISHU_BOT_OPEN_ID := oid, FEISHU_BOT_USER_ID := uid \<rparr>)
     (js ''today's weather?'') [] = False"
  by (cases mo) (simp_all add: shouldRespondInGroup_def isMentioningBot_def, code_simp)

lemma bridge_filter_answers_question:
  "shouldRespondInGroup_bridge (js ''today's weather?'') [] = True"
  by code_simp

section \<open>Properties of the gateway client\<close>

lemma on_message_lifecycle_end:
  assumes "promise g = Pending" and "\<not> other_run g p"
    and "p_stream p = Some (js ''lifecycle'')" and "d_phase p = Some (js ''end'')"
  shows "on_message h g (EventAgent (Some p))
           = g\<lparr> promise := Resolved (trim (buf g)), closeCalls := Suc (closeCalls g) \<rparr>"
  using assms by (simp add: on_message_def settle_def close_socket_def js_def)

lemma on_message_lifecycle_error:
  assumes "promise g = Pending" and "\<not> other_run g p"
    and "p_stream p = Some (js ''lifecycle'')" and "d_phase p = Some (js ''error'')"
  shows "on_message h g (EventAgent (Some p))
           = g\<lparr> promise := Rejected (or_default (d_message p) (js ''agent error'')),
                closeCalls := Suc (closeCalls g) \<rparr>"
  using assms by (simp add: on_message_def settle_def close_socket_def js_def)

text \<open>
  C7. Lifecycle events. While the promise of an invocation is pending, a lifecycle event
  of its run with phase \<open>end\<close> resolves the promise with the accumulated buffer, trimmed,
  and closes the socket; one with phase \<open>error\<close> rejects it with the message the event
  provides and closes the socket.
\<close>

theorem lifecycle_settles:
  assumes "promise g = Pending" and "\<not> other_run g p"
    and "p_stream p = Some (js ''lifecycle'')"
  shows "(d_phase p = Some (js ''end'') \<longrightarrow>
            promise (on_message h g (EventAgent (Some p))) = Resolved (trim (buf g)) \<and>
            closeCalls (on_message h g (EventAgent (Some p))) = Suc (closeCalls g)) \<and>
         (d_phase p = Some (js ''error'') \<and> d_message p = Some m \<and> m \<noteq> [] \<longrightarrow>
            promise (on_message h g (EventAgent (Some p))) = Rejected m \<and>
            closeCalls (on_message h g (EventAgent (Some p))) = Suc (closeCalls g))"
  using assms
  by (auto simp: on_message_lifecycle_end on_message_lifecycle_error or_default_def)

lemma happy_run_before_end:
  "foldl (on_message True) gateway_init (butlast happy_frames) =
     \<lparr> runId = Some (js ''r1''), buf = js ''Hello world '', promise = Pending, closeCalls = 0,
       sent = [ConnectRequest, AgentRequest], deltas = [js ''Hello '', js ''Hello world ''] \<rparr>"
  by (simp add: happy_frames_def gateway_init_def on_message_def assistant_frame_def
      lifecycle_frame_def or_default_def other_run_def js_def Let_def)

theorem lifecycle_settles_witness:
  "promise (foldl (on_message True) gateway_init happy_frames) = Resolved (js ''Hello world'') \<and>
   closeCalls (foldl (on_message True) gateway_init happy_frames) = 1 \<and>
   length (deltas (foldl (on_message True) gateway_init happy_frames)) = 2"
proof -
  let ?g = "foldl (on_message True) gateway_init (butlast happy_frames)"
  let ?p = "\<lparr> p_runId = Some (js ''r1''), p_stream = Some (js ''lifecycle''),
     d_text = None, d_delta = None, d_phase = Some (js ''end''), d_message = None \<rparr>"
  have split: "foldl (on_message True) gateway_init happy_frames
      = on_message True ?g (EventAgent (Some ?p))"
    by (simp add: happy_frames_def lifecycle_frame_def)
  have pend: "promise ?g = Pending" and own: "\<not> other_run ?g ?p"
    by (simp_all add: happy_run_before_end other_run_def)
  have str: "p_stream ?p = Some (js ''lifecycle'')" by simp
  have tr: "trim (js ''Hello world '') = js ''Hello world''"
    by (simp add: trim_def trimEnd_def trimStart_def isWs_def js_def)
  have same: "deltas (on_message True ?g (EventAgent (Some ?p))) = deltas ?g"
    by (simp add: on_message_def settle_def close_socket_def other_run_def
        happy_run_before_end js_def)
  from lifecycle_settles [OF pend own str, of True "[]"] split same tr
  show ?thesis by (simp add: happy_run_before_end)
qed

section \<open>Properties of the card builder\<close>

text \<open>
  C8. The title of a card: the first non-empty line is to be the title when it is a
  heading, a bold line or a short plain line, and never when it is a list item, a table row
  or a code fence. Evaluated on the code: a reply that opens with a list item has the item
  taken as the title and cut from the body, in \<open>extractHeaderAndBody\<close> and in the card
  built from it; a numbered item is taken as well, and a heading keeps its hash marks in
  the title. A table row in the first line is left in place.
\<close>

theorem extractHeaderAndBody_list_item:
  "extractHeaderAndBody (js ''- first item\<newline>- second item'')
     = (js ''- first item'', js ''- second item'') \<and>
   extractHeaderAndBody (js ''1. one\<newline>2. two'') = (js ''1. one'', js ''2. two'') \<and>
   extractHeaderAndBody (js ''# Title\<newline>\<newline>body text'') = (js ''# Title'', js ''body text'') \<and>
   extractHeaderAndBody (js ''| a | b |\<newline>body text'') = ([], js ''| a | b |\<newline>body text'') \<and>
   buildMarkdownCard True (js ''- first item\<newline>- second item'')
     = \<lparr> header = Some (js ''- first item''), body_elements = [Markdown (js ''- second item'')] \<rparr>"
  by code_simp

text \<open>
  C9. Tables beyond the cap of five are to be flattened so that every data row becomes one
  bullet of \<open>header: cell\<close> pairs. Evaluated on the code: five tables, then a sixth with
  header \<open>x | y\<close> and the data rows \<open>1 | 2\<close> and \<open>3 | 4\<close>; the sixth comes out as the
  single bullet \<open>1: 3 | 2: 4\<close>. Its first data row is taken for the header and its header
  is lost. The same table given to \<open>convertTablesToList\<close> alone becomes one bullet for
  each data row.
\<close>

theorem excess_table_loses_first_row:
  "buildCardElements True
     (js (''|a|b|\<newline>|---|---|\<newline>|1|2|\<newline>\<newline>'' @ ''|c|b|\<newline>|---|---|\<newline>|1|2|\<newline>\<newline>'' @
          ''|d|b|\<newline>|---|---|\<newline>|1|2|\<newline>\<newline>'' @ ''|e|b|\<newline>|---|---|\<newline>|1|2|\<newline>\<newline>'' @
          ''|f|b|\<newline>|---|---|\<newline>|1|2|\<newline>\<newline>'' @ ''|x|y|\<newline>|---|---|\<newline>|1|2|\<newline>|3|4|''))
     = [Table [js ''a'', js ''b''] [[js ''1'', js ''2'']],
        Table [js ''c'', js ''b''] [[js ''1'', js ''2'']],
        Table [js ''d'', js ''b''] [[js ''1'', js ''2'']],
        Table [js ''e'', js ''b''] [[js ''1'', js ''2'']],
        Table [js ''f'', js ''b''] [[js ''1'', js ''2'']],
        Markdown (BULLET @ js ''1: 3 | 2: 4'')] \<and>
   convertTablesToList (js ''|x|y|\<newline>|---|---|\<newline>|1|2|\<newline>|3|4|'')
     = BULLET @ js ''x: 1 | y: 2'' @ [NL] @ BULLET @ js ''x: 3 | y: 4''"
  by code_simp

section \<open>Properties of the chunker\<close>

lemma join_nl_Cons: "join_nl (x # y # ys) = x @ NL # join_nl (y # ys)"
  by (simp add: join_nl_def)

lemma split_on_nonempty: "split_on d s \<noteq> []"
  by (induction s) (auto split: list.splits)

lemma join_with_cons_head: "join_with d ((c # r) # rs) = c # join_with d (r # rs)"
  by (cases rs) simp_all

lemma join_split_on: "join_with [d] (split_on d s) = s"
proof (induction s)
  case Nil
  then show ?case by simp
next
  case (Cons c cs)
  obtain r rs where sp: "split_on d cs = r # rs"
    using split_on_nonempty [of d cs] by (cases "split_on d cs") auto
  show ?case
  proof (cases "c = d")
    case True
    with Cons sp show ?thesis by simp
  next
    case False
    with Cons sp show ?thesis by (simp add: join_with_cons_head)
  qed
qed

lemma join_split_nl: "join_nl (split_nl s) = s"
  by (simp add: join_nl_def split_nl_def NL_def join_split_on)

lemma pushChunk_carried: "carried (pushChunk False st) = carried st"
  by (simp add: carried_def pushChunk_def Let_def)

lemma pushChunk_reopen_ok: "reopen_ok (pushChunk c st)"
  by (simp add: reopen_ok_def pushChunk_def Let_def)

lemma chunk_step_carried:
  assumes "reopen_ok st"
  shows "carried (chunk_step m st line rest) = carried st @ [line] \<and>
         reopen_ok (chunk_step m st line rest)"
  using assms
  by (auto simp: chunk_step_def Let_def carried_def reopen_ok_def pushChunk_def)

lemma chunk_loop_carried:
  assumes "reopen_ok st"
  shows "carried (chunk_loop m st ls) = carried st @ ls \<and> reopen_ok (chunk_loop m st ls)"
  using assms
proof (induction ls arbitrary: st)
  case Nil
  then show ?case by simp
next
  case (Cons l ls)
  from chunk_step_carried [OF Cons.prems, of m l ls]
  have 1: "carried (chunk_step m st l ls) = carried st @ [l]" and 2: "reopen_ok (chunk_step m st l ls)"
    by auto
  from Cons.IH [OF 2] 1 show ?case by simp
qed

lemma chunk_run_lines:
  "concat (map original_lines (flushed (chunk_run m src))) = split_nl src"
proof -
  let ?st = "chunk_loop m chunker_init (split_nl src)"
  have init: "reopen_ok chunker_init" "carried chunker_init = []"
    by (simp_all add: reopen_ok_def carried_def chunker_init_def)
  from chunk_loop_carried [OF init(1), of m "split_nl src"] init(2)
  have c: "carried ?st = split_nl src" and r: "reopen_ok ?st" by auto
  show ?thesis
  proof (cases "chunk_buf ?st = []")
    case True
    with c r show ?thesis by (simp add: chunk_run_def carried_def reopen_ok_def Let_def)
  next
    case False
    have "carried (pushChunk False ?st) = split_nl src"
      using c by (simp add: pushChunk_carried)
    then show ?thesis using False
      by (simp add: chunk_run_def Let_def carried_def pushChunk_def)
  qed
qed

lemma pushChunk_rendered: "rendered st \<Longrightarrow> rendered (pushChunk c st)"
  by (simp add: rendered_def pushChunk_def Let_def)

lemma chunk_step_rendered: "rendered st \<Longrightarrow> rendered (chunk_step m st line rest)"
  by (auto simp: chunk_step_def Let_def rendered_def pushChunk_def)

lemma chunk_loop_rendered: "rendered st \<Longrightarrow> rendered (chunk_loop m st ls)"
  by (induction ls arbitrary: st) (simp_all add: chunk_step_rendered)

lemma chunk_run_rendered: "rendered (chunk_run m src)"
proof -
  have "rendered chunker_init" by (simp add: rendered_def chunker_init_def)
  then have "rendered (chunk_loop m chunker_init (split_nl src))" by (rule chunk_loop_rendered)
  then show ?thesis by (simp add: chunk_run_def Let_def pushChunk_rendered)
qed

lemma chunk_round_trip_buffers:
  assumes "maxChars < length (replace_crlf text)"
  shows "join_nl (concat (map original_lines (chunk_buffers text maxChars))) = replace_crlf text \<and>
         splitMarkdownIntoChunks text maxChars =
           (let cs = filter (\<lambda>c. c \<noteq> []) (map render_buffer (chunk_buffers text maxChars))
            in if cs = [] then [take maxChars (replace_crlf text)] else cs)"
proof -
  have ne: "replace_crlf text \<noteq> []" using assms by auto
  have "rendered (chunk_run maxChars (replace_crlf text))" by (rule chunk_run_rendered)
  then show ?thesis
    using assms ne
    by (simp add: chunk_buffers_def chunk_run_lines join_split_nl splitMarkdownIntoChunks_def
        rendered_def Let_def)
qed

lemma trimEnd_solid: "l \<noteq> [] \<Longrightarrow> \<not> isWs (last l) \<Longrightarrow> trimEnd l = l"
proof -
  assume a: "l \<noteq> []" "\<not> isWs (last l)"
  then obtain xs x where l: "l = xs @ [x]" by (metis append_butlast_last_id)
  with a show ?thesis by (simp add: trimEnd_def)
qed

lemma dropWhile_last: "dropWhile P l \<noteq> [] \<Longrightarrow> last (dropWhile P l) = last l"
  by (induction l) (auto split: if_splits)

lemma solid_trim: "solid l \<Longrightarrow> solid (trim l)"
proof -
  assume s: "solid l"
  then have ne: "l \<noteq> []" and nw: "\<not> isWs (last l)" and nn: "NL \<notin> set l"
    by (simp_all add: solid_def)
  have "dropWhile isWs l \<noteq> []"
    using ne nw by (metis dropWhile_eq_Nil_conv last_in_set)
  then have d: "dropWhile isWs l \<noteq> []" "last (dropWhile isWs l) = last l"
    by (simp_all add: dropWhile_last)
  then have t: "trim l = dropWhile isWs l"
    using nw by (simp add: trim_def trimStart_def trimEnd_solid)
  have "set (dropWhile isWs l) \<subseteq> set l" by (rule set_dropWhileD [THEN subsetI]) 
  with t d nw nn show ?thesis by (auto simp: solid_def)
qed

lemma solid_FENCE: "solid FENCE"
  by (simp add: solid_def FENCE_def js_def isWs_def NL_def)

lemma split_on_free: "l \<in> set (split_on d s) \<Longrightarrow> d \<notin> set l"
proof (induction s arbitrary: l)
  case Nil
  then show ?case by simp
next
  case (Cons c cs)
  obtain r rs where sp: "split_on d cs = r # rs"
    using split_on_nonempty [of d cs] by (cases "split_on d cs") auto
  with Cons show ?case by (auto split: if_splits)
qed

lemma split_on_append:
  "d \<notin> set x \<Longrightarrow> split_on d (x @ d # rest) = x # split_on d rest"
  by (induction x) auto

lemma split_on_single: "d \<notin> set x \<Longrightarrow> split_on d x = [x]"
  by (induction x) auto

lemma split_join_on:
  "ls \<noteq> [] \<Longrightarrow> \<forall>l \<in> set ls. d \<notin> set l \<Longrightarrow> split_on d (join_with [d] ls) = ls"
proof (induction ls)
  case Nil
  then show ?case by simp
next
  case (Cons x ys)
  show ?case
  proof (cases ys)
    case Nil
    with Cons.prems show ?thesis by (simp add: split_on_single)
  next
    case (Cons y zs)
    with Cons.IH Cons.prems have "split_on d (join_with [d] ys) = ys" by simp
    with Cons Cons.prems show ?thesis by (simp add: split_on_append)
  qed
qed

lemma join_with_last:
  "ls \<noteq> [] \<Longrightarrow> last ls \<noteq> [] \<Longrightarrow> join_with d ls \<noteq> [] \<and> last (join_with d ls) = last (last ls)"
  by (induction d ls rule: join_with.induct) auto

lemma render_solid:
  assumes "ls \<noteq> []" and "\<forall>l \<in> set ls. solid l"
  shows "trimEnd (join_nl ls) = join_nl ls \<and> join_nl ls \<noteq> [] \<and> split_nl (join_nl ls) = ls"
proof -
  have l: "solid (last ls)" using assms by simp
  then have "join_nl ls \<noteq> [] \<and> last (join_nl ls) = last (last ls)"
    unfolding join_nl_def using assms(1) by (intro join_with_last) (auto simp: solid_def)
  moreover have "split_nl (join_nl ls) = ls"
    unfolding split_nl_def join_nl_def using assms
    by (intro split_join_on) (auto simp: solid_def)
  ultimately show ?thesis using l by (simp add: trimEnd_solid solid_def)
qed

lemma pushChunk_all_solid:
  "all_solid st \<Longrightarrow> chunk_buf st \<noteq> [] \<Longrightarrow> all_solid (pushChunk c st)"
  by (simp add: all_solid_def pushChunk_def Let_def)

lemma chunk_step_all_solid:
  assumes "all_solid st" and "solid line"
  shows "all_solid (chunk_step m st line rest)"
proof -
  have t: "solid (trim line)" using assms(2) by (rule solid_trim)
  show ?thesis
    using assms t solid_FENCE
    by (auto simp: chunk_step_def Let_def all_solid_def pushChunk_def)
qed

lemma chunk_loop_all_solid:
  "all_solid st \<Longrightarrow> list_all solid ls \<Longrightarrow> all_solid (chunk_loop m st ls)"
  by (induction ls arbitrary: st) (simp_all add: chunk_step_all_solid)

lemma chunk_run_all_solid:
  assumes "list_all solid (split_nl src)"
  shows "all_solid (chunk_run m src)"
proof -
  have "all_solid chunker_init"
    by (simp add: all_solid_def chunker_init_def solid_FENCE)
  then have "all_solid (chunk_loop m chunker_init (split_nl src))"
    using assms by (rule chunk_loop_all_solid)
  then show ?thesis
    by (simp add: chunk_run_def Let_def pushChunk_all_solid)
qed

lemma rejoin_solid:
  assumes "list_all (\<lambda>b. snd (snd b) \<noteq> [] \<and> list_all solid (snd (snd b))) bs"
  shows "map chunk_original_lines (filter (\<lambda>b. render_buffer b \<noteq> []) bs) = map original_lines bs"
  using assms
proof (induction bs)
  case Nil
  then show ?case by simp
next
  case (Cons b bs)
  obtain opn c ls where b: "b = (opn, c, ls)" by (cases b)
  with Cons.prems have "ls \<noteq> []" "\<forall>l \<in> set ls. solid l" by (auto simp: list_all_iff)
  from render_solid [OF this] Cons b show ?case by simp
qed

lemma chunk_round_trip_exact:
  assumes "list_all solid (split_nl (replace_crlf text))"
  shows "rejoin_chunks text m = replace_crlf text"
proof -
  have "all_solid (chunk_run m (replace_crlf text))"
    using assms by (rule chunk_run_all_solid)
  then show ?thesis
    by (simp add: rejoin_chunks_def chunk_buffers_def all_solid_def rejoin_solid
        chunk_run_lines join_split_nl)
qed

lemma replace_crlf_id:
  "\<forall>l \<in> set (split_on NL s). l = [] \<or> last l \<noteq> CR \<Longrightarrow> replace_crlf s = s"
proof (induction s rule: replace_crlf.induct)
  case (1 a b cs)
  obtain r rs where sp: "split_on NL (b # cs) = r # rs"
    using split_on_nonempty [of NL "b # cs"] by (cases "split_on NL (b # cs)") auto
  have ab: "\<not> (a = CR \<and> b = NL)"
  proof
    assume "a = CR \<and> b = NL"
    then have "[CR] \<in> set (split_on NL (a # b # cs))" by (simp add: CR_def NL_def)
    with "1.prems" show False by fastforce
  qed
  have "\<forall>l \<in> set (split_on NL (b # cs)). l = [] \<or> last l \<noteq> CR"
  proof (cases "a = NL")
    case True
    with "1.prems" show ?thesis by simp
  next
    case False
    with "1.prems" sp show ?thesis by (auto split: if_splits)
  qed
  with "1.IH" ab show ?case by auto
qed simp_all

lemma solid_no_crlf:
  assumes "list_all solid (split_nl text)"
  shows "replace_crlf text = text"
proof -
  have "\<forall>l \<in> set (split_on NL text). l = [] \<or> last l \<noteq> CR"
    using assms by (auto simp: list_all_iff split_nl_def solid_def isWs_def CR_def)
  then show ?thesis by (rule replace_crlf_id)
qed

text \<open>
  Where the text has no fence line, the bound of C1 holds: every chunk is at most
  \<open>maxChars\<close> long or is a single line of the text.
\<close>

lemma length_join_nl: "ls \<noteq> [] \<Longrightarrow> Suc (length (join_nl ls)) = sum_list (map (\<lambda>l. Suc (length l)) ls)"
  unfolding join_nl_def by (induction "[NL]" ls rule: join_with.induct) simp_all

lemma length_trimEnd: "length (trimEnd s) \<le> length s"
  by (simp add: trimEnd_def length_dropWhile_le [of isWs "rev s", simplified])

lemma inFence_pushChunk: "inFence (pushChunk c st) = inFence st"
  by (simp add: pushChunk_def Let_def)

lemma pushChunk_fence_free:
  assumes "fence_free m ls st"
  shows "fence_free m ls (pushChunk False st)"
proof -
  let ?out = "trimEnd (join_nl (chunk_buf st))"
  have "within_bound m ls ?out" if ne: "?out \<noteq> []"
  proof -
    have b: "chunk_buf st \<noteq> []" using ne by (auto simp: trimEnd_def join_nl_def)
    from assms have "bufLen st \<le> m \<or> list_ex (\<lambda>l. chunk_buf st = [l]) ls"
      by (auto simp: fence_free_def)
    then show ?thesis
    proof
      assume le: "bufLen st \<le> m"
      have "Suc (length (join_nl (chunk_buf st))) = bufLen st"
        using assms b by (simp add: fence_free_def length_join_nl)
      with le length_trimEnd [of "join_nl (chunk_buf st)"] show ?thesis
        by (simp add: within_bound_def)
    next
      assume "list_ex (\<lambda>l. chunk_buf st = [l]) ls"
      then obtain l where "l \<in> set ls" "chunk_buf st = [l]" by (auto simp: list_ex_iff)
      then show ?thesis by (auto simp: within_bound_def list_ex_iff join_nl_def)
    qed
  qed
  with assms show ?thesis
    by (auto simp: fence_free_def pushChunk_def Let_def)
qed

lemma chunk_step_fence_free:
  assumes "fence_free m ls st" and "\<not> startsWith (trim line) FENCE" and "line \<in> set ls"
  shows "fence_free m ls (chunk_step m st line rest)"
proof -
  define st2 where "st2 = (if bufLen st + (length line + 1) > m \<and> chunk_buf st \<noteq> []
                           then pushChunk False st else st)"
  define st3 where "st3 = st2\<lparr> chunk_buf := chunk_buf st2 @ [line],
                                bufLen := bufLen st2 + (length line + 1) \<rparr>"
  have ff2: "fence_free m ls st2"
    using assms(1) by (simp add: st2_def pushChunk_fence_free)
  have room: "bufLen st2 + (length line + 1) \<le> m \<or> chunk_buf st2 = []"
    by (auto simp: st2_def pushChunk_def Let_def)
  have ff3: "fence_free m ls st3"
    using ff2 room assms(3)
    by (auto simp: st3_def fence_free_def list_ex_iff)
  have "chunk_step m st line rest =
          (if bufLen st3 \<ge> 3 * m div 4 \<and> at_paragraph_end rest then pushChunk False st3 else st3)"
  proof -
    have nf: "\<not> inFence st" using assms(1) by (auto simp: fence_free_def)
    show ?thesis
      using nf assms(2)
      by (simp add: chunk_step_def Let_def st3_def st2_def inFence_pushChunk)
  qed
  with ff3 show ?thesis by (simp add: pushChunk_fence_free)
qed

lemma chunk_loop_fence_free:
  assumes "fence_free m ls st" and "\<forall>l \<in> set xs. l \<in> set ls \<and> \<not> startsWith (trim l) FENCE"
  shows "fence_free m ls (chunk_loop m st xs)"
  using assms
  by (induction xs arbitrary: st) (simp_all add: chunk_step_fence_free)

lemma chunk_bound_without_fences:
  assumes "list_all (\<lambda>l. \<not> startsWith (trim l) FENCE) (split_nl (replace_crlf text))"
  shows "list_all (within_bound m (split_nl (replace_crlf text))) (splitMarkdownIntoChunks text m)"
proof -
  let ?src = "replace_crlf text"
  let ?ls = "split_nl ?src"
  have "fence_free m ?ls chunker_init"
    by (simp add: fence_free_def chunker_init_def)
  then have "fence_free m ?ls (chunk_loop m chunker_init ?ls)"
    using assms by (intro chunk_loop_fence_free) (auto simp: list_all_iff)
  then have "fence_free m ?ls (chunk_run m ?src)"
    by (simp add: chunk_run_def Let_def pushChunk_fence_free)
  then have "list_all (within_bound m ?ls) (chunks (chunk_run m ?src))"
    by (simp add: fence_free_def)
  then show ?thesis
    by (simp add: splitMarkdownIntoChunks_def Let_def within_bound_def)
qed

text \<open>
  C1. The bound on chunk lengths: no chunk is to be longer than \<open>maxChars\<close> unless a
  single line is. Evaluated on the code: a fenced block of four lines, none longer than 7
  characters, split at \<open>maxChars = 12\<close>; the first chunk is the opening fence, the first
  code line and the closing fence the splitter appends, 15 characters in all.
\<close>

theorem chunk_exceeds_maxChars:
  "splitMarkdownIntoChunks (js ''```\<newline>abcdefg\<newline>hij\<newline>```'') 12
     = [js ''```\<newline>abcdefg\<newline>```'', js ''```\<newline>hij\<newline>```''] \<and>
   map length (splitMarkdownIntoChunks (js ''```\<newline>abcdefg\<newline>hij\<newline>```'') 12) = [15, 11] \<and>
   map length (split_nl (js ''```\<newline>abcdefg\<newline>hij\<newline>```'')) = [3, 7, 3, 3]"
  by code_simp

text \<open>
  C2. The round trip as stated: the chunks, with the fence lines the splitter added taken
  out again, give back the text. They do not, whether they are joined by newlines or put
  end to end: a blank line that ends up at the end of a chunk is trimmed away.
\<close>

theorem chunk_round_trip_counterexample:
  "splitMarkdownIntoChunks
     (js ''Summary:\<newline>\<newline>Run these two:\<newline>```\<newline>abcdefghijkl\<newline>mnopqrstuvwx\<newline>```'') 20
     = [js ''Summary:'', js ''Run these two:\<newline>```\<newline>```'',
        js ''```\<newline>abcdefghijkl\<newline>```'', js ''```\<newline>mnopqrstuvwx'', js ''```''] \<and>
   rejoin_chunks
     (js ''Summary:\<newline>\<newline>Run these two:\<newline>```\<newline>abcdefghijkl\<newline>mnopqrstuvwx\<newline>```'') 20
     = js ''Summary:\<newline>Run these two:\<newline>```\<newline>abcdefghijkl\<newline>mnopqrstuvwx\<newline>```'' \<and>
   rejoin_chunks
     (js ''Summary:\<newline>\<newline>Run these two:\<newline>```\<newline>abcdefghijkl\<newline>mnopqrstuvwx\<newline>```'') 20
     \<noteq> js ''Summary:\<newline>\<newline>Run these two:\<newline>```\<newline>abcdefghijkl\<newline>mnopqrstuvwx\<newline>```'' \<and>
   concat_chunks
     (js ''Summary:\<newline>\<newline>Run these two:\<newline>```\<newline>abcdefghijkl\<newline>mnopqrstuvwx\<newline>```'') 20
     \<noteq> js ''Summary:\<newline>\<newline>Run these two:\<newline>```\<newline>abcdefghijkl\<newline>mnopqrstuvwx\<newline>```''"
  by code_simp

text \<open>
  C2, as the code has it. For a text longer than \<open>maxChars\<close> (line ends normalised to
  newlines), the line buffers the splitter flushes, without the fence lines it added,
  hold exactly the lines of the text, in order; every chunk returned is one of these
  buffers joined by newlines and trimmed at its end, a buffer that trims to nothing being
  left out. When no line of the text is empty or ends in white space, nothing is trimmed
  and the chunks themselves, the added fence lines removed, rejoin to the text exactly.
\<close>

theorem chunk_round_trip:
  assumes "maxChars < length (replace_crlf text)"
  shows "join_nl (concat (map original_lines (chunk_buffers text maxChars))) = replace_crlf text \<and>
         splitMarkdownIntoChunks text maxChars =
           (let cs = filter (\<lambda>c. c \<noteq> []) (map render_buffer (chunk_buffers text maxChars))
            in if cs = [] then [take maxChars (replace_crlf text)] else cs) \<and>
         (list_all solid (split_nl text) \<longrightarrow> rejoin_chunks text maxChars = text)"
proof -
  have "list_all solid (split_nl text) \<longrightarrow> rejoin_chunks text maxChars = text"
  proof
    assume a: "list_all solid (split_nl text)"
    then have "replace_crlf text = text" by (rule solid_no_crlf)
    with a chunk_round_trip_exact [of "text" maxChars] show "rejoin_chunks text maxChars = text"
      by simp
  qed
  with chunk_round_trip_buffers [OF assms] show ?thesis by simp
qed

theorem chunk_round_trip_witness:
  "rejoin_chunks (js ''```\<newline>abcdefg\<newline>hij\<newline>```'') 12 = js ''```\<newline>abcdefg\<newline>hij\<newline>```'' \<and>
   join_nl (concat (map original_lines (chunk_buffers (js ''```\<newline>abcdefg\<newline>hij\<newline>```'') 12)))
     = js ''```\<newline>abcdefg\<newline>hij\<newline>```''"
proof -
  let ?t = "js ''```\<newline>abcdefg\<newline>hij\<newline>```''"
  have crlf: "replace_crlf ?t = ?t" by code_simp
  have len: "12 < length (replace_crlf ?t)" by code_simp
  have sol: "list_all solid (split_nl ?t)" by code_simp
  from chunk_round_trip [OF len] sol crlf show ?thesis by simp
qed

end
